theory Spec2Isabelle
  imports Main "HOL-Library.Sublist"
begin

section \<open>JavaScript strings and arrays\<close>

text \<open>
  The application is a React component tree written in JavaScript: \<^verbatim>\<open>src/App.js\<close>, and a
  second variant of that file whose name is not recorded. The two variants have the same
  editor widget and the same handlers, token for token; they differ in how the analysis
  result is rendered.

  A JavaScript string is a sequence of UTF-16 code units and every index the code uses
  (\<^verbatim>\<open>selectionStart\<close>, \<^verbatim>\<open>substring\<close>, \<^verbatim>\<open>length\<close>) counts code units. The model writes a
  string as a \<^typ>\<open>string\<close>, one \<^typ>\<open>char\<close> per code unit, so it covers the strings whose
  code units lie in 0..255 (ASCII and Latin-1). The library methods the handlers call are
  modelled after ECMAScript: they are total, and clamp where JavaScript clamps.
\<close>

text \<open>\<^verbatim>\<open>s.substring(a, b)\<close>: both ends are clamped to the length and swapped when out of
  order; \<^verbatim>\<open>s.substring(a)\<close> runs to the end.\<close>

definition substring :: "string \<Rightarrow> nat \<Rightarrow> nat \<Rightarrow> string" where
  "substring s a b =
     (let a' = min a (length s); b' = min b (length s);
          from = min a' b'; to = max a' b'
      in take (to - from) (drop from s))"

definition substring_from :: "string \<Rightarrow> nat \<Rightarrow> string" where
  "substring_from s a = drop (min a (length s)) s"

text \<open>\<^verbatim>\<open>s.split(c)\<close> for a separator of one character: the segments between the
  occurrences of \<open>c\<close>; the empty string gives one empty segment.\<close>

fun split_on :: "char \<Rightarrow> string \<Rightarrow> string list" where
  "split_on c [] = [[]]"
| "split_on c (x # xs) =
     (if x = c then [] # split_on c xs
      else (case split_on c xs of
              [] \<Rightarrow> [[x]]
            | seg # segs \<Rightarrow> (x # seg) # segs))"

text \<open>\<^verbatim>\<open>xs.join(sep)\<close> on an array of strings.\<close>

fun join :: "string \<Rightarrow> string list \<Rightarrow> string" where
  "join sep [] = []"
| "join sep [x] = x"
| "join sep (x # y # ys) = x @ sep @ join sep (y # ys)"

text \<open>\<^verbatim>\<open>Number.prototype.toString\<close> on a non-negative integer: its decimal digits.
  (\<^verbatim>\<open>join\<close> applies it to each line number; exponent notation starts at \<open>10\<^sup>2\<^sup>1\<close>,
  beyond the length of any string.)\<close>

definition digit_char :: "nat \<Rightarrow> char" where
  "digit_char d = char_of (48 + d)"

fun number_toString :: "nat \<Rightarrow> string" where
  "number_toString n =
     (if n < 10 then [digit_char n]
      else number_toString (n div 10) @ [digit_char (n mod 10)])"

declare number_toString.simps [simp del]

abbreviation newline :: char where
  "newline \<equiv> CHR 0x0A"

section \<open>The editor widget (\<^verbatim>\<open>CodeEditor\<close>)\<close>

subsection \<open>Line-number gutter\<close>

text \<open>
  \<^verbatim>\<open>const lines = value.split('\n');\<close>
  \<^verbatim>\<open>const lineNumbers = lines.map((_, index) => index + 1).join('\n');\<close>
  The effect \<^verbatim>\<open>updateLineNumbers\<close> writes this text into the gutter element; the JSX
  renders the same expression followed by \<^verbatim>\<open>|| '1'\<close>, the fallback for an empty
  (falsy) string.
\<close>

definition lineNumbers :: "string \<Rightarrow> string" where
  "lineNumbers v =
     (let lines = split_on newline v
      in join [newline] (map (\<lambda>index. number_toString (index + 1)) [0..<length lines]))"

definition gutter :: "string \<Rightarrow> string" where
  "gutter v = (let t = lineNumbers v in if t = [] then ''1'' else t)"

subsection \<open>Indent key\<close>

text \<open>
  The key event as the handler reads it: \<^verbatim>\<open>e.key\<close>, \<^verbatim>\<open>e.target.selectionStart\<close> and
  \<^verbatim>\<open>e.target.selectionEnd\<close>. What the handler does is returned as a record: whether
  \<^verbatim>\<open>e.preventDefault()\<close> was called, the argument of \<^verbatim>\<open>onChange\<close> if it was called, and
  the caret position that the \<^verbatim>\<open>setTimeout\<close> callback assigns to both
  \<^verbatim>\<open>selectionStart\<close> and \<^verbatim>\<open>selectionEnd\<close>.
\<close>

record key_event =
  key :: string
  selectionStart :: nat
  selectionEnd :: nat

record key_result =
  defaultPrevented :: bool
  changed :: "string option"
  caret :: "nat option"

definition handleKeyDown :: "string \<Rightarrow> key_event \<Rightarrow> key_result" where
  "handleKeyDown v e =
     (if key e = ''Tab'' then
        (let start = selectionStart e;
             end' = selectionEnd e;
             newValue = substring v 0 start @ ''  '' @ substring_from v end'
         in \<lparr>defaultPrevented = True, changed = Some newValue, caret = Some (start + 2)\<rparr>)
      else \<lparr>defaultPrevented = False, changed = None, caret = None\<rparr>)"

section \<open>The application (\<^verbatim>\<open>App\<close>)\<close>

subsection \<open>More string methods\<close>

text \<open>\<^verbatim>\<open>s.trim()\<close> removes white space and line terminators from both ends. Among the code
  units 0..255 these are TAB, LF, VT, FF, CR, SPACE and NO-BREAK SPACE.\<close>

definition is_space :: "char \<Rightarrow> bool" where
  "is_space c \<longleftrightarrow>
     c \<in> set [CHR 0x09, CHR 0x0A, CHR 0x0B, CHR 0x0C, CHR 0x0D, CHR 0x20, CHR 0xA0]"

definition trim :: "string \<Rightarrow> string" where
  "trim s = rev (dropWhile is_space (rev (dropWhile is_space s)))"

text \<open>\<^verbatim>\<open>s.toLowerCase()\<close> on the code units 0..255: A-Z and the Latin-1 capitals
  (0xC0-0xDE without the multiplication sign 0xD7) move up by 32.\<close>

definition lower_char :: "char \<Rightarrow> char" where
  "lower_char c =
     (let n = (of_char c :: nat)
      in if (65 \<le> n \<and> n \<le> 90) \<or> (192 \<le> n \<and> n \<le> 222 \<and> n \<noteq> 215)
         then char_of (n + 32) else c)"

definition toLowerCase :: "string \<Rightarrow> string" where
  "toLowerCase s = map lower_char s"

text \<open>\<^verbatim>\<open>s.indexOf(pat)\<close>: the first position where \<open>pat\<close> starts, \<open>None\<close> for -1.\<close>

fun indexOf :: "string \<Rightarrow> string \<Rightarrow> nat option" where
  "indexOf pat [] = (if pat = [] then Some 0 else None)"
| "indexOf pat (x # xs) =
     (if prefix pat (x # xs) then Some 0 else map_option Suc (indexOf pat xs))"

text \<open>\<^verbatim>\<open>s.replace(pat, rep)\<close> with a string pattern replaces the first occurrence only
  (the replacement strings used here contain no \<^verbatim>\<open>$\<close> pattern).\<close>

definition replace :: "string \<Rightarrow> string \<Rightarrow> string \<Rightarrow> string" where
  "replace s pat rep =
     (case indexOf pat s of
        None \<Rightarrow> s
      | Some i \<Rightarrow> take i s @ rep @ drop (i + length pat) s)"

text \<open>\<^verbatim>\<open>xs.pop()\<close> returns the last element, \<^verbatim>\<open>undefined\<close> on an empty array.\<close>

definition pop :: "'a list \<Rightarrow> 'a option" where
  "pop xs = (if xs = [] then None else Some (last xs))"

subsection \<open>State\<close>

text \<open>A chosen \<^verbatim>\<open>File\<close>: its name, its size in bytes, its declared type and its bytes.
  The size is the property \<^verbatim>\<open>file.size\<close> the handler reads.\<close>

record js_file =
  name :: string
  fsize :: nat
  ftype :: string
  bytes :: string

text \<open>The analysis service's response in the shape the component consumes: an object
  with an optional \<^verbatim>\<open>issues\<close> array of issues (line, type, message).\<close>

record issue =
  line :: int
  itype :: string
  message :: string

record analysis_result =
  issues :: "issue list option"

text \<open>The five \<^verbatim>\<open>useState\<close> cells of \<^verbatim>\<open>App\<close>; \<open>None\<close> is \<^verbatim>\<open>null\<close>.\<close>

record app_state =
  contractCode :: string
  githubUrl :: string
  analysisResults :: "analysis_result option"
  isAnalyzing :: bool
  selectedFile :: "js_file option"

definition initial_state :: app_state where
  "initial_state =
     \<lparr>contractCode = [], githubUrl = [], analysisResults = None,
      isAnalyzing = False, selectedFile = None\<rparr>"

subsection \<open>Effects\<close>

text \<open>A part of a \<^verbatim>\<open>FormData\<close> body is a \<^verbatim>\<open>File\<close> appended as it is, or a \<^verbatim>\<open>Blob\<close>
  made from a text with a type, appended under a file name.\<close>

datatype form_value =
    FileValue js_file
  | BlobValue (blob_text: string) (blob_type: string) (blob_filename: string)

type_synonym form_data = "(string \<times> form_value) list"

definition append_form :: "form_data \<Rightarrow> string \<Rightarrow> form_value \<Rightarrow> form_data" where
  "append_form fd field v = fd @ [(field, v)]"

datatype request =
    Post string form_data
  | Get string

datatype effect =
    ShowToast string string
  | ConsoleError string
  | Fetch request
  | ReadAsText js_file

definition showToast :: "string \<Rightarrow> string \<Rightarrow> effect" where
  "showToast msg type = ShowToast msg type"

text \<open>An error object caught by a handler: its message and, when it has them, the
  \<^verbatim>\<open>response.data\<close> it carries with an optional \<^verbatim>\<open>message\<close>.\<close>

record js_error =
  err_message :: string
  err_response_data :: "string option option"

text \<open>How an awaited \<^verbatim>\<open>fetch\<close> settles: the promise rejects (network failure), or a
  response arrives with its \<^verbatim>\<open>ok\<close> flag and the outcome of decoding its body
  (\<^verbatim>\<open>response.json()\<close> or \<^verbatim>\<open>response.text()\<close>), which may reject too.\<close>

datatype 'a fetch_result =
    Rejected js_error
  | Response bool "js_error + 'a"

subsection \<open>Submitting for analysis (\<^verbatim>\<open>handleAnalyzeContract\<close>)\<close>

definition analyze_url :: string where
  "analyze_url = ''https://qubic-id1q.onrender.com/analyze''"

text \<open>The handler up to \<^verbatim>\<open>await fetch(...)\<close>: validation, the in-flight flag, the form.\<close>

definition handleAnalyzeContract :: "app_state \<Rightarrow> app_state \<times> effect list" where
  "handleAnalyzeContract st =
     (if selectedFile st = None \<and> trim (contractCode st) = [] then
        (st, [showToast ''Please select a file or enter contract code to analyze'' ''error''])
      else
        (let formData =
               (case selectedFile st of
                  Some f \<Rightarrow> append_form [] ''file'' (FileValue f)
                | None \<Rightarrow>
                    append_form [] ''file''
                      (BlobValue (contractCode st) ''text/plain'' ''contract.cpp''))
         in (st\<lparr>isAnalyzing := True\<rparr>, [Fetch (Post analyze_url formData)])))"

text \<open>The \<^verbatim>\<open>catch\<close> block and the \<^verbatim>\<open>finally\<close> block.\<close>

definition analyze_catch :: "js_error \<Rightarrow> effect list" where
  "analyze_catch error =
     [ConsoleError ''Analysis error:'',
      (case err_response_data error of
         Some data \<Rightarrow>
           showToast (''Error: '' @
             (case data of
                Some m \<Rightarrow> if m = [] then ''Unprocessable data'' else m
              | None \<Rightarrow> ''Unprocessable data'')) ''error''
       | None \<Rightarrow> showToast ''Failed to analyze contract. Please try again.'' ''error'')]"

definition analyze_finally :: "app_state \<Rightarrow> app_state" where
  "analyze_finally st = st\<lparr>isAnalyzing := False\<rparr>"

text \<open>The handler from the point where the awaited request settles. The setters act on
  the state of that moment.\<close>

definition handleAnalyzeContract_settled ::
  "app_state \<Rightarrow> analysis_result fetch_result \<Rightarrow> app_state \<times> effect list" where
  "handleAnalyzeContract_settled st r =
     (case r of
        Rejected error \<Rightarrow> (analyze_finally st, analyze_catch error)
      | Response ok body \<Rightarrow>
          if \<not> ok then
            (analyze_finally st,
             analyze_catch \<lparr>err_message = ''Analysis failed'', err_response_data = None\<rparr>)
          else
            (case body of
               Inl error \<Rightarrow> (analyze_finally st, analyze_catch error)
             | Inr results \<Rightarrow>
                 (analyze_finally (st\<lparr>analysisResults := Some results\<rparr>),
                  [showToast ''Contract analysis completed successfully!'' ''success''])))"

subsection \<open>Importing from GitHub (\<^verbatim>\<open>handleImportFromGithub\<close>)\<close>

definition rawUrl :: "string \<Rightarrow> string" where
  "rawUrl url =
     replace (replace url ''github.com'' ''raw.githubusercontent.com'') ''/blob/'' ''/''"

definition handleImportFromGithub :: "app_state \<Rightarrow> app_state \<times> effect list" where
  "handleImportFromGithub st =
     (if trim (githubUrl st) = [] then
        (st, [showToast ''Please enter a GitHub URL'' ''error''])
      else (st, [Fetch (Get (rawUrl (githubUrl st)))]))"

definition import_catch :: "effect list" where
  "import_catch =
     [ConsoleError ''Import error:'',
      showToast ''Failed to import from GitHub. Please check the URL.'' ''error'']"

definition handleImportFromGithub_settled ::
  "app_state \<Rightarrow> string fetch_result \<Rightarrow> app_state \<times> effect list" where
  "handleImportFromGithub_settled st r =
     (case r of
        Rejected error \<Rightarrow> (st, import_catch)
      | Response ok body \<Rightarrow>
          if \<not> ok then (st, import_catch)
          else
            (case body of
               Inl error \<Rightarrow> (st, import_catch)
             | Inr code \<Rightarrow>
                 (st\<lparr>contractCode := code, selectedFile := None\<rparr>,
                  [showToast ''Code imported from GitHub successfully!'' ''success''])))"

subsection \<open>Choosing a file (\<^verbatim>\<open>handleFileUpload\<close>)\<close>

definition allowedTypes :: "string list" where
  "allowedTypes = [''.h'', ''.cpp'']"

definition max_file_size :: nat where
  "max_file_size = 5 * 1024 * 1024"

text \<open>\<^verbatim>\<open>'.' + file.name.split('.').pop().toLowerCase()\<close>; \<open>None\<close> stands for the
  \<^verbatim>\<open>TypeError\<close> of calling a method on \<^verbatim>\<open>undefined\<close>.\<close>

definition fileExtension :: "js_file \<Rightarrow> string option" where
  "fileExtension f =
     (case pop (split_on CHR ''.'' (name f)) of
        None \<Rightarrow> None
      | Some seg \<Rightarrow> Some (''.'' @ toLowerCase seg))"

text \<open>The argument is \<^verbatim>\<open>event.target.files[0]\<close>, \<open>None\<close> when no file was chosen.\<close>

definition handleFileUpload :: "app_state \<Rightarrow> js_file option \<Rightarrow> app_state \<times> effect list" where
  "handleFileUpload st file0 =
     (case file0 of
        None \<Rightarrow> (st, [showToast ''File not uploaded'' ''error''])
      | Some f \<Rightarrow>
          (case fileExtension f of
             None \<Rightarrow> (st, [ConsoleError ''Uncaught TypeError''])
           | Some ext \<Rightarrow>
               if ext \<notin> set allowedTypes then
                 (st, [showToast
                   ''Please select a valid contract file (.cpp, .h, .sol, .js, .ts, .py, .rs, .go, .txt)''
                   ''error''])
               else if fsize f > max_file_size then
                 (st, [showToast ''File size must be less than 5MB'' ''error''])
               else (st\<lparr>selectedFile := Some f\<rparr>, [ReadAsText f])))"

text \<open>The two callbacks of the \<^verbatim>\<open>FileReader\<close>.\<close>

definition reader_onload :: "app_state \<Rightarrow> js_file \<Rightarrow> string \<Rightarrow> app_state \<times> effect list" where
  "reader_onload st f content =
     (st\<lparr>contractCode := content\<rparr>,
      [showToast (''File \"'' @ name f @ ''\" selected successfully!'') ''success''])"

definition reader_onerror :: "app_state \<Rightarrow> app_state \<times> effect list" where
  "reader_onerror st = (st, [showToast ''Failed to read file. Please try again.'' ''error''])"

subsection \<open>What is rendered\<close>

text \<open>\<^verbatim>\<open><button onClick={handleAnalyzeContract} disabled={isAnalyzing}>\<close>\<close>

definition analyze_disabled :: "app_state \<Rightarrow> bool" where
  "analyze_disabled st = isAnalyzing st"

text \<open>
  The results panel. \<open>Placeholder\<close> is the panel "Analysis results will appear here",
  \<open>JsonDump r\<close> the \<^verbatim>\<open><pre>\<close> element holding \<^verbatim>\<open>JSON.stringify(analysisResults, null, 2)\<close>,
  \<open>NoIssuesFound\<close> the panel "No Issues Found" and \<open>IssueList\<close> the list with one entry per
  issue (the markup of an entry is not modelled).
\<close>

datatype results_panel =
    Placeholder
  | JsonDump analysis_result
  | NoIssuesFound
  | IssueList "issue list"

text \<open>\<^verbatim>\<open>src/App.js\<close>: \<^verbatim>\<open>analysisResults ? <pre>...</pre> : <placeholder>\<close>.\<close>

definition results_panel_json :: "app_state \<Rightarrow> results_panel" where
  "results_panel_json st =
     (case analysisResults st of
        Some r \<Rightarrow> JsonDump r
      | None \<Rightarrow> Placeholder)"

text \<open>The second variant of \<^verbatim>\<open>App\<close>:
  \<^verbatim>\<open>analysisResults ? (analysisResults.issues && analysisResults.issues.length > 0 ? <list> : <none>) : <placeholder>\<close>.\<close>

definition results_panel_issues :: "app_state \<Rightarrow> results_panel" where
  "results_panel_issues st =
     (case analysisResults st of
        Some r \<Rightarrow>
          (case issues r of
             None \<Rightarrow> NoIssuesFound
           | Some xs \<Rightarrow> if length xs > 0 then IssueList xs else NoIssuesFound)
      | None \<Rightarrow> Placeholder)"

subsection \<open>Events\<close>

text \<open>
  The component together with the requests it has in flight. The browser delivers one
  event at a time: input events of the user, and completions of what the handlers
  started. A click on the Analyze button reaches \<^verbatim>\<open>handleAnalyzeContract\<close> only when the
  button is not disabled; React renders the state a click handler has set before the
  next click is dispatched, so the button's \<^verbatim>\<open>disabled\<close> attribute is that of the current
  state. A completion is delivered only for a request that is in flight.
\<close>

record system =
  app :: app_state
  pending_analyses :: nat
  pending_imports :: nat
  log :: "effect list"

datatype event =
    TextChange string
  | KeyDown key_event
  | UrlChange string
  | FileChosen "js_file option"
  | ReaderLoad js_file string
  | ReaderError
  | ImportClick
  | ImportSettled "string fetch_result"
  | AnalyzeClick
  | AnalyzeSettled "analysis_result fetch_result"

definition initial_system :: system where
  "initial_system =
     \<lparr>app = initial_state, pending_analyses = 0, pending_imports = 0, log = []\<rparr>"

fun is_post :: "effect \<Rightarrow> bool" where
  "is_post (Fetch (Post url body)) = True"
| "is_post other = False"

fun is_get :: "effect \<Rightarrow> bool" where
  "is_get (Fetch (Get url)) = True"
| "is_get other = False"

definition perform :: "system \<Rightarrow> app_state \<times> effect list \<Rightarrow> system" where
  "perform s r =
     s\<lparr>app := fst r,
       pending_analyses := pending_analyses s + length (filter is_post (snd r)),
       pending_imports := pending_imports s + length (filter is_get (snd r)),
       log := log s @ snd r\<rparr>"

text \<open>\<^verbatim>\<open><CodeEditor value={contractCode} onChange={setContractCode} ... />\<close>: the editor's
  key handler runs on the current text and its \<^verbatim>\<open>onChange\<close> is the setter.\<close>

definition editor_keydown :: "app_state \<Rightarrow> key_event \<Rightarrow> app_state" where
  "editor_keydown st e =
     (case changed (handleKeyDown (contractCode st) e) of
        Some v \<Rightarrow> st\<lparr>contractCode := v\<rparr>
      | None \<Rightarrow> st)"

definition step :: "system \<Rightarrow> event \<Rightarrow> system" where
  "step s ev =
     (case ev of
        TextChange v \<Rightarrow> s\<lparr>app := (app s)\<lparr>contractCode := v\<rparr>\<rparr>
      | KeyDown e \<Rightarrow> s\<lparr>app := editor_keydown (app s) e\<rparr>
      | UrlChange u \<Rightarrow> s\<lparr>app := (app s)\<lparr>githubUrl := u\<rparr>\<rparr>
      | FileChosen f \<Rightarrow> perform s (handleFileUpload (app s) f)
      | ReaderLoad f content \<Rightarrow> perform s (reader_onload (app s) f content)
      | ReaderError \<Rightarrow> perform s (reader_onerror (app s))
      | ImportClick \<Rightarrow> perform s (handleImportFromGithub (app s))
      | ImportSettled r \<Rightarrow>
          if pending_imports s = 0 then s
          else perform (s\<lparr>pending_imports := pending_imports s - 1\<rparr>)
                 (handleImportFromGithub_settled (app s) r)
      | AnalyzeClick \<Rightarrow>
          if analyze_disabled (app s) then s
          else perform s (handleAnalyzeContract (app s))
      | AnalyzeSettled r \<Rightarrow>
          if pending_analyses s = 0 then s
          else perform (s\<lparr>pending_analyses := pending_analyses s - 1\<rparr>)
                 (handleAnalyzeContract_settled (app s) r))"

definition run :: "system \<Rightarrow> event list \<Rightarrow> system" where
  "run s evs = foldl step s evs"

subsection \<open>Notions used in the statements\<close>

text \<open>A request has failed when the \<^verbatim>\<open>fetch\<close> promise rejects (network error), the
  response is not \<^verbatim>\<open>ok\<close> (status outside 200-299), or decoding its body rejects (for
  the analysis, a JSON parse failure).\<close>

definition failed :: "'a fetch_result \<Rightarrow> bool" where
  "failed r = (case r of Rejected e \<Rightarrow> True | Response ok body \<Rightarrow> \<not> ok \<or> isl body)"

text \<open>The in-flight flag is set exactly while one analysis request is outstanding.\<close>

definition inflight_inv :: "system \<Rightarrow> bool" where
  "inflight_inv s \<longleftrightarrow> pending_analyses s = (if isAnalyzing (app s) then 1 else 0)"

text \<open>\<open>is_numeral s n\<close>: the text \<open>s\<close> is the decimal numeral of \<open>n\<close>: it is not empty,
  every character is one of the ten digits, it has no leading zero (but for the numeral
  of 0), and its digits, read from the left in base ten, give \<open>n\<close>.\<close>

definition decimal_value :: "string \<Rightarrow> nat" where
  "decimal_value s = foldl (\<lambda>acc c. 10 * acc + (of_char c - 48)) 0 s"

definition is_numeral :: "string \<Rightarrow> nat \<Rightarrow> bool" where
  "is_numeral s n \<longleftrightarrow>
     s \<noteq> [] \<and> set s \<subseteq> set ''0123456789'' \<and> (hd s \<noteq> CHR ''0'' \<or> s = ''0'')
     \<and> decimal_value s = n"

text \<open>\<open>first_replaced s pat rep t\<close>: the text \<open>t\<close> is \<open>s\<close> with its first occurrence of
  \<open>pat\<close> replaced by \<open>rep\<close>, and \<open>s\<close> itself when \<open>pat\<close> does not occur in \<open>s\<close>. An
  occurrence \<open>s = A @ pat @ B\<close> is the first one when \<open>pat\<close> does not occur in
  \<open>A @ butlast pat\<close>, that is, does not start anywhere before the end of \<open>A\<close>.\<close>

definition first_replaced :: "string \<Rightarrow> string \<Rightarrow> string \<Rightarrow> string \<Rightarrow> bool" where
  "first_replaced s pat rep t \<longleftrightarrow>
     (\<not> sublist pat s \<and> t = s)
     \<or> (\<exists>A B. s = A @ pat @ B \<and> \<not> sublist pat (A @ butlast pat) \<and> t = A @ rep @ B)"

section \<open>Properties of the string methods\<close>

lemma split_on_ne: "split_on c s \<noteq> []"
  by (induction s) (auto split: list.splits)

lemma length_split_on: "length (split_on c s) = Suc (count_list s c)"
  by (induction s) (auto split: list.splits simp: split_on_ne)

lemma split_on_notin: "c \<notin> set x \<Longrightarrow> split_on c x = [x]"
  by (induction x) auto

lemma split_on_append: "c \<notin> set x \<Longrightarrow> split_on c (x @ c # r) = x # split_on c r"
  by (induction x) (auto split: list.splits)

lemma split_on_join:
  "xs \<noteq> [] \<Longrightarrow> \<forall>x\<in>set xs. c \<notin> set x \<Longrightarrow> split_on c (join [c] xs) = xs"
  by (induction "[c]" xs rule: join.induct) (auto simp: split_on_notin split_on_append)

lemma join_ne: "xs \<noteq> [] \<Longrightarrow> \<forall>x\<in>set xs. x \<noteq> [] \<Longrightarrow> join sep xs \<noteq> []"
  by (induction sep xs rule: join.induct) auto

lemma char_of_nat_eq: "n < 256 \<Longrightarrow> of_char c = n \<Longrightarrow> char_of n = c"
  by auto

lemma of_char_digit_char: "d < 10 \<Longrightarrow> of_char (digit_char d) = 48 + d"
  by (simp add: digit_char_def)

lemma digit_char_not_newline: "d < 10 \<Longrightarrow> digit_char d \<noteq> newline"
proof
  assume d: "d < 10" and "digit_char d = newline"
  then have "(of_char (digit_char d) :: nat) = of_char newline" by simp
  with d show False by (simp add: of_char_digit_char)
qed

lemma number_toString_ne: "number_toString n \<noteq> []"
  by (subst number_toString.simps) simp

lemma newline_notin_number_toString: "newline \<notin> set (number_toString n)"
proof (induction n rule: number_toString.induct)
  case (1 n)
  show ?case
  proof (cases "n < 10")
    case True
    then show ?thesis
      using digit_char_not_newline [of n] by (subst number_toString.simps) auto
  next
    case False
    have "n mod 10 < 10" by simp
    then have "digit_char (n mod 10) \<noteq> newline" by (rule digit_char_not_newline)
    with False 1 show ?thesis
      by (subst number_toString.simps) auto
  qed
qed

text \<open>\<open>number_toString\<close> writes decimal notation: reading the digits back gives the number.\<close>

lemma number_toString_value:
  "foldl (\<lambda>acc c. 10 * acc + (of_char c - 48)) 0 (number_toString n) = n"
proof (induction n rule: number_toString.induct)
  case (1 n)
  show ?case
  proof (cases "n < 10")
    case True
    then show ?thesis
      by (subst number_toString.simps) (simp add: of_char_digit_char)
  next
    case False
    have "n mod 10 < 10" by simp
    then have "(of_char (digit_char (n mod 10)) :: nat) - 48 = n mod 10"
      by (simp add: of_char_digit_char)
    with False 1 show ?thesis
      by (subst number_toString.simps) simp
  qed
qed

text \<open>Joining the segments of a split with the separator gives the text back.\<close>

lemma join_split_on: "join [c] (split_on c s) = s"
proof (induction s)
  case Nil
  then show ?case by simp
next
  case (Cons x xs)
  obtain seg segs where sp: "split_on c xs = seg # segs"
    using split_on_ne [of c xs] by (cases "split_on c xs") auto
  show ?case
  proof (cases "x = c")
    case True
    with Cons sp show ?thesis by simp
  next
    case False
    with Cons sp show ?thesis by (cases segs) auto
  qed
qed

lemma digit_char_digit: "d < 10 \<Longrightarrow> digit_char d \<in> set ''0123456789''"
proof -
  assume "d < 10"
  then have "d \<in> {0, 1, 2, 3, 4, 5, 6, 7, 8, 9}" by auto
  then show ?thesis
    by (auto simp: digit_char_def char_of_nat_eq)
qed

lemma number_toString_digits: "set (number_toString n) \<subseteq> set ''0123456789''"
proof (induction n rule: number_toString.induct)
  case (1 n)
  show ?case
  proof (cases "n < 10")
    case True
    then show ?thesis
      using digit_char_digit [of n] by (subst number_toString.simps) simp
  next
    case False
    have "digit_char (n mod 10) \<in> set ''0123456789''" by (rule digit_char_digit) simp
    with False 1 show ?thesis
      by (subst number_toString.simps) simp
  qed
qed

lemma digit_char_not_zero: "0 < d \<Longrightarrow> d < 10 \<Longrightarrow> digit_char d \<noteq> CHR ''0''"
proof
  assume d: "0 < d" "d < 10" and "digit_char d = CHR ''0''"
  then have "(of_char (digit_char d) :: nat) = of_char CHR ''0''" by simp
  with d show False by (simp add: of_char_digit_char)
qed

lemma number_toString_no_leading_zero: "0 < n \<Longrightarrow> hd (number_toString n) \<noteq> CHR ''0''"
proof (induction n rule: number_toString.induct)
  case (1 n)
  show ?case
  proof (cases "n < 10")
    case True
    then show ?thesis
      using digit_char_not_zero [of n] 1(2) by (subst number_toString.simps) simp
  next
    case False
    then have "0 < n div 10" by simp
    with False 1 have "hd (number_toString (n div 10)) \<noteq> CHR ''0''" by simp
    with False show ?thesis
      by (subst number_toString.simps) (simp add: number_toString_ne)
  qed
qed

lemma is_numeral_number_toString: "0 < n \<Longrightarrow> is_numeral (number_toString n) n"
  unfolding is_numeral_def decimal_value_def
  using number_toString_ne [of n] number_toString_digits [of n]
    number_toString_no_leading_zero [of n] number_toString_value [of n]
  by blast

text \<open>Only one text is the numeral of a number, so \<open>is_numeral\<close> fixes each character.\<close>

lemma digit_facts:
  assumes "c \<in> set ''0123456789''"
  shows "(of_char c :: nat) - 48 < 10" and "digit_char (of_char c - 48) = c"
    and "c \<noteq> CHR ''0'' \<Longrightarrow> 0 < (of_char c :: nat) - 48"
  using assms by (auto simp: digit_char_def char_of_nat_eq)

lemma decimal_value_snoc: "decimal_value (s @ [c]) = 10 * decimal_value s + (of_char c - 48)"
  by (simp add: decimal_value_def)

lemma decimal_value_pos:
  "s \<noteq> [] \<Longrightarrow> set s \<subseteq> set ''0123456789'' \<Longrightarrow> hd s \<noteq> CHR ''0'' \<Longrightarrow> 0 < decimal_value s"
proof (induction s rule: rev_induct)
  case Nil
  then show ?case by simp
next
  case (snoc c s)
  show ?case
  proof (cases "s = []")
    case True
    with snoc.prems have "c \<in> set ''0123456789''" "c \<noteq> CHR ''0''" by simp_all
    then have "0 < (of_char c :: nat) - 48" by (rule digit_facts(3))
    with True show ?thesis by (simp add: decimal_value_def)
  next
    case False
    with snoc have "0 < decimal_value s" by simp
    then show ?thesis by (simp add: decimal_value_snoc)
  qed
qed

lemma is_numeral_unique: "is_numeral s n \<Longrightarrow> s = number_toString n"
proof (induction n arbitrary: s rule: number_toString.induct)
  case (1 n)
  from "1.prems" have ne: "s \<noteq> []" and dig: "set s \<subseteq> set ''0123456789''"
    and lead: "hd s \<noteq> CHR ''0'' \<or> s = ''0''" and val: "decimal_value s = n"
    by (simp_all add: is_numeral_def)
  from ne obtain s' c where s: "s = s' @ [c]" by (cases s rule: rev_cases) auto
  from dig s have c: "c \<in> set ''0123456789''" and dig': "set s' \<subseteq> set ''0123456789''"
    by simp_all
  have d10: "(of_char c :: nat) - 48 < 10" using c by (rule digit_facts(1))
  have n: "n = 10 * decimal_value s' + (of_char c - 48)"
    using val s by (simp add: decimal_value_snoc)
  with d10 have md: "n mod 10 = of_char c - 48" and dv: "n div 10 = decimal_value s'"
    by simp_all
  have cc: "digit_char (n mod 10) = c" unfolding md using c by (rule digit_facts(2))
  have lead': "hd s' \<noteq> CHR ''0''" if "s' \<noteq> []"
  proof -
    from that s have "s \<noteq> ''0''" by (cases s') auto
    with lead have "hd s \<noteq> CHR ''0''" by simp
    with that s show ?thesis by simp
  qed
  show ?case
  proof (cases "n < 10")
    case True
    have "s' = []"
    proof (rule ccontr)
      assume "s' \<noteq> []"
      then have "0 < decimal_value s'" using dig' lead' by (intro decimal_value_pos) simp_all
      with dv True show False by simp
    qed
    with s cc True show ?thesis by (subst number_toString.simps) simp
  next
    case False
    have ne': "s' \<noteq> []"
    proof
      assume "s' = []"
      with n d10 have "n < 10" by (simp add: decimal_value_def)
      with False show False by simp
    qed
    then have "is_numeral s' (n div 10)"
      using dig' lead' dv by (simp add: is_numeral_def)
    with "1.IH" False have "s' = number_toString (n div 10)" by simp
    with s cc False show ?thesis by (subst number_toString.simps) simp
  qed
qed

lemma is_numeral_determines: "is_numeral s n \<Longrightarrow> is_numeral t n \<Longrightarrow> s = t"
  using is_numeral_unique by metis

lemma trim_Nil_iff: "trim s = [] \<longleftrightarrow> (\<forall>c\<in>set s. is_space c)"
proof
  assume "trim s = []"
  then have all: "\<forall>c\<in>set (dropWhile is_space s). is_space c"
    by (simp add: trim_def dropWhile_eq_Nil_conv)
  have "dropWhile is_space s = []"
  proof (rule ccontr)
    assume ne: "dropWhile is_space s \<noteq> []"
    then have "\<not> is_space (hd (dropWhile is_space s))" by (rule hd_dropWhile)
    moreover have "hd (dropWhile is_space s) \<in> set (dropWhile is_space s)"
      using ne by simp
    ultimately show False using all by blast
  qed
  then show "\<forall>c\<in>set s. is_space c" by (simp add: dropWhile_eq_Nil_conv)
next
  assume "\<forall>c\<in>set s. is_space c"
  then have "dropWhile is_space s = []" by (simp add: dropWhile_eq_Nil_conv)
  then show "trim s = []" by (simp add: trim_def del: dropWhile_eq_Nil_conv)
qed

lemma indexOf_None_iff: "indexOf pat s = None \<longleftrightarrow> \<not> sublist pat s"
  by (induction s) (auto simp: sublist_Cons_right)

lemma prefix_append_short:
  assumes "prefix xs (ys @ zs)" and "length xs \<le> length ys"
  shows "prefix xs ys"
proof -
  from assms(1) obtain r where "ys @ zs = xs @ r" by (auto simp: prefix_def)
  then have "take (length xs) (ys @ zs) = xs" by simp
  with assms(2) have "take (length xs) ys = xs" by simp
  then show ?thesis by (metis take_is_prefix)
qed

lemma prefix_before_end:
  assumes "pat \<noteq> []" and "prefix pat (A @ pat @ B)" and "A \<noteq> []"
  shows "sublist pat (A @ butlast pat)"
proof -
  have len: "length pat \<le> length (A @ butlast pat)" using assms by (cases A) auto
  have "pat = butlast pat @ [last pat]" using assms(1) by simp
  then have "A @ pat @ B = (A @ butlast pat) @ (last pat # B)"
    by (metis append.assoc append_Cons append_Nil)
  with assms(2) have "prefix pat ((A @ butlast pat) @ (last pat # B))" by simp
  then have "prefix pat (A @ butlast pat)"
    using len by (rule prefix_append_short)
  then show ?thesis by (rule prefix_imp_sublist)
qed

lemma indexOf_first:
  "pat \<noteq> [] \<Longrightarrow> \<not> sublist pat (A @ butlast pat) \<Longrightarrow>
   indexOf pat (A @ pat @ B) = Some (length A)"
proof (induction A)
  case Nil
  then show ?case by (cases pat) auto
next
  case (Cons x A)
  have np: "\<not> prefix pat ((x # A) @ pat @ B)"
    using prefix_before_end [of pat "x # A" B] Cons.prems by blast
  have "\<not> sublist pat (A @ butlast pat)"
    using Cons.prems(2) by (simp add: sublist_Cons_right)
  with Cons.IH Cons.prems(1) have "indexOf pat (A @ pat @ B) = Some (length A)" by simp
  with np show ?case by simp
qed

lemma replace_first:
  "pat \<noteq> [] \<Longrightarrow> \<not> sublist pat (A @ butlast pat) \<Longrightarrow>
   replace (A @ pat @ B) pat rep = A @ rep @ B"
  by (simp add: replace_def indexOf_first)

lemma replace_absent: "\<not> sublist pat s \<Longrightarrow> replace s pat rep = s"
  using indexOf_None_iff [of pat s] by (simp add: replace_def)

lemma indexOf_Some:
  "pat \<noteq> [] \<Longrightarrow> indexOf pat s = Some i \<Longrightarrow>
   s = take i s @ pat @ drop (i + length pat) s \<and> \<not> sublist pat (take i s @ butlast pat)"
proof (induction s arbitrary: i)
  case Nil
  then show ?case by simp
next
  case (Cons x xs)
  show ?case
  proof (cases "prefix pat (x # xs)")
    case True
    then have i: "i = 0" using Cons.prems by simp
    from True obtain r where "x # xs = pat @ r" by (auto simp: prefix_def)
    then have "x # xs = pat @ drop (length pat) (x # xs)"
      using append_eq_conv_conj [of pat r "x # xs"] by simp
    moreover have "\<not> sublist pat (butlast pat)"
      using Cons.prems(1) sublist_length_le [of pat "butlast pat"] by (cases pat) auto
    ultimately show ?thesis using i by simp
  next
    case False
    then obtain j where j: "indexOf pat xs = Some j" "i = Suc j"
      using Cons.prems by (auto split: if_splits)
    from Cons.IH [OF Cons.prems(1) j(1)]
    have IH: "xs = take j xs @ pat @ drop (j + length pat) xs"
         "\<not> sublist pat (take j xs @ butlast pat)" by simp_all
    have "\<not> prefix pat (x # take j xs @ butlast pat)"
    proof
      assume "prefix pat (x # take j xs @ butlast pat)"
      moreover have "pat = butlast pat @ [last pat]"
        using Cons.prems(1) by simp
      then have "xs = (take j xs @ butlast pat) @ (last pat # drop (j + length pat) xs)"
        using IH(1) by (metis append.assoc append_Cons append_Nil)
      then have "prefix (take j xs @ butlast pat) xs" by (rule prefixI)
      then have "prefix (x # take j xs @ butlast pat) (x # xs)" by simp
      ultimately have "prefix pat (x # xs)" by (rule prefix_order.trans)
      with False show False by simp
    qed
    with IH(2) have "\<not> sublist pat (x # take j xs @ butlast pat)"
      by (simp add: sublist_Cons_right)
    with IH(1) j(2) show ?thesis by simp
  qed
qed

lemma replace_first_replaced:
  assumes "pat \<noteq> []"
  shows "first_replaced s pat rep (replace s pat rep)"
proof (cases "indexOf pat s")
  case None
  then show ?thesis
    using indexOf_None_iff [of pat s] by (simp add: first_replaced_def replace_def)
next
  case (Some i)
  from indexOf_Some [OF assms Some]
  have "s = take i s @ pat @ drop (i + length pat) s"
       "\<not> sublist pat (take i s @ butlast pat)" by simp_all
  moreover have "replace s pat rep = take i s @ rep @ drop (i + length pat) s"
    using Some by (simp add: replace_def)
  ultimately show ?thesis unfolding first_replaced_def by blast
qed

text \<open>A pattern that starts and ends with a character \<open>c\<close> cannot overlap a stretch of
  text without \<open>c\<close> that is almost as long as the pattern: it lies before or after it.\<close>

lemma sublist_around_middle:
  assumes p: "p \<noteq> []" "hd p = c" "last p = c"
    and M: "c \<notin> set M" "length p \<le> Suc (length M)"
  shows "sublist p (X @ M @ Y) \<longleftrightarrow> sublist p X \<or> sublist p Y"
proof
  assume "sublist p X \<or> sublist p Y"
  then show "sublist p (X @ M @ Y)"
    by (auto simp: sublist_append)
next
  have cp: "c \<in> set p" using p(1,2) hd_in_set [of p] by simp
  have notM: "\<not> sublist p M"
  proof
    assume "sublist p M"
    then have "set p \<subseteq> set M" by (rule set_mono_sublist)
    with cp M(1) show False by blast
  qed
  have MY: "sublist p Y" if "sublist p (M @ Y)"
  proof -
    from that consider "sublist p M" | "sublist p Y"
      | q1 q2 where "p = q1 @ q2" "suffix q1 M" "prefix q2 Y"
      unfolding sublist_append by blast
    then show ?thesis
    proof cases
      case 1
      with notM show ?thesis by simp
    next
      case 2
      then show ?thesis .
    next
      case 3
      show ?thesis
      proof (cases "q1 = []")
        case True
        with 3 have "prefix p Y" by simp
        then show ?thesis by (rule prefix_imp_sublist)
      next
        case False
        then have "hd q1 = c" using 3(1) p(2) by simp
        with False have "c \<in> set q1" using hd_in_set [of q1] by simp
        moreover have "set q1 \<subseteq> set M" using 3(2) by (rule set_mono_suffix)
        ultimately show ?thesis using M(1) by blast
      qed
    qed
  qed
  assume "sublist p (X @ M @ Y)"
  then consider "sublist p X" | "sublist p (M @ Y)"
    | p1 p2 where "p = p1 @ p2" "suffix p1 X" "prefix p2 (M @ Y)"
    unfolding sublist_append by blast
  then show "sublist p X \<or> sublist p Y"
  proof cases
    case 1
    then show ?thesis by simp
  next
    case 2
    then show ?thesis using MY by simp
  next
    case 3
    show ?thesis
    proof (cases "p1 = []")
      case True
      with 3 have "sublist p (M @ Y)" by (simp add: prefix_imp_sublist)
      then show ?thesis using MY by simp
    next
      case p1: False
      show ?thesis
      proof (cases "p2 = []")
        case True
        with 3 have "suffix p X" by simp
        then show ?thesis by (simp add: suffix_imp_sublist)
      next
        case p2: False
        then have lastc: "last p2 = c" using 3(1) p(3) by simp
        show ?thesis
        proof (cases "length p2 \<le> length M")
          case True
          with 3(3) have "prefix p2 M" by (rule prefix_append_short)
          then have "set p2 \<subseteq> set M" by (rule set_mono_prefix)
          moreover have "c \<in> set p2" using lastc p2 last_in_set [of p2] by simp
          ultimately show ?thesis using M(1) by blast
        next
          case False
          then have "length p > Suc (length M)" using 3(1) p1 by (cases p1) auto
          with M(2) show ?thesis by simp
        qed
      qed
    qed
  qed
qed

section \<open>The editor widget\<close>

lemma map_index_shift:
  "map (\<lambda>index. f (index + 1)) [0..<n] = map f [1..<Suc n]"
proof -
  have "map (\<lambda>index. f (index + 1)) [0..<n] = map f (map Suc [0..<n])" by simp
  also have "\<dots> = map f [1..<Suc n]" by (simp only: map_Suc_upt One_nat_def)
  finally show ?thesis .
qed

lemma lineNumbers_eq:
  "lineNumbers v = join [newline] (map number_toString [1..<Suc (length (split_on newline v))])"
  unfolding lineNumbers_def Let_def by (rule arg_cong [OF map_index_shift])

lemma lineNumbers_ne: "lineNumbers v \<noteq> []"
  unfolding lineNumbers_eq
  by (rule join_ne) (auto simp: number_toString_ne split_on_ne simp del: upt_Suc)

text \<open>The fallback \<^verbatim>\<open>|| '1'\<close> of the JSX is never taken: the text that the effect writes
  and the text that is rendered agree.\<close>

lemma gutter_eq: "gutter v = lineNumbers v"
  by (simp add: gutter_def lineNumbers_ne)

text \<open>
  C1. For a text \<open>V\<close> and a selection \<open>[S, E]\<close> with \<open>S \<le> E \<le> length V\<close>, the Tab key
  calls \<^verbatim>\<open>preventDefault\<close>, hands \<open>V[0:S]\<close> + two spaces + \<open>V[E:]\<close> to \<^verbatim>\<open>onChange\<close>, which
  makes it the text of the application, and places the caret at \<open>S + 2\<close>, a position
  inside the new text. \<open>S = E\<close> is the caret without a selection, at the start
  (\<open>S = 0\<close>), in the middle or at the end (\<open>S = length V\<close>).
\<close>

theorem indent_key:
  assumes "S \<le> E" and "E \<le> length V"
  shows "handleKeyDown V \<lparr>key = ''Tab'', selectionStart = S, selectionEnd = E\<rparr>
           = \<lparr>defaultPrevented = True,
              changed = Some (take S V @ ''  '' @ drop E V),
              caret = Some (S + 2)\<rparr>
         \<and> contractCode (editor_keydown (st\<lparr>contractCode := V\<rparr>)
              \<lparr>key = ''Tab'', selectionStart = S, selectionEnd = E\<rparr>)
           = take S V @ ''  '' @ drop E V
         \<and> S + 2 \<le> length (take S V @ ''  '' @ drop E V)"
  using assms
  by (simp add: handleKeyDown_def editor_keydown_def substring_def substring_from_def Let_def)

theorem indent_key_witness:
  "handleKeyDown ''abcdef'' \<lparr>key = ''Tab'', selectionStart = 2, selectionEnd = 4\<rparr>
     = \<lparr>defaultPrevented = True, changed = Some ''ab  ef'', caret = Some 4\<rparr>
   \<and> contractCode (editor_keydown (initial_state\<lparr>contractCode := ''abcdef''\<rparr>)
        \<lparr>key = ''Tab'', selectionStart = 2, selectionEnd = 4\<rparr>) = ''ab  ef''
   \<and> handleKeyDown ''abc'' \<lparr>key = ''Tab'', selectionStart = 0, selectionEnd = 0\<rparr>
     = \<lparr>defaultPrevented = True, changed = Some ''  abc'', caret = Some 2\<rparr>
   \<and> handleKeyDown ''abc'' \<lparr>key = ''Tab'', selectionStart = 3, selectionEnd = 3\<rparr>
     = \<lparr>defaultPrevented = True, changed = Some ''abc  '', caret = Some 5\<rparr>"
  using indent_key [of 2 4 "''abcdef''" initial_state]
        indent_key [of 0 0 "''abc''" initial_state]
        indent_key [of 3 3 "''abc''" initial_state]
  by simp

text \<open>
  C2. The gutter text of a value \<open>V\<close> is N lines joined by newlines, where N is the
  number of segments of \<open>V\<close> between newlines, that is one more than the number of
  newlines in \<open>V\<close> (a trailing newline opens one more line). Line \<open>k\<close> (counted from
  1) is the decimal numeral of \<open>k\<close>: digits only, no leading zero, and reading \<open>k\<close> in
  base ten. For the empty value the gutter is "1".
\<close>

theorem gutter_lines:
  "split_on newline (gutter V) = map number_toString [1..<Suc (length (split_on newline V))]
   \<and> length (split_on newline V) = Suc (count_list V newline)
   \<and> gutter [] = ''1''
   \<and> gutter V = join [newline] (split_on newline (gutter V))
   \<and> length (split_on newline (gutter V)) = Suc (count_list V newline)
   \<and> (\<forall>k < Suc (count_list V newline). is_numeral (split_on newline (gutter V) ! k) (Suc k))"
proof -
  let ?N = "length (split_on newline V)"
  have N: "?N = Suc (count_list V newline)" by (rule length_split_on)
  have lines: "split_on newline (gutter V) = map number_toString [1..<Suc ?N]"
    unfolding gutter_eq lineNumbers_eq
    by (rule split_on_join)
       (auto simp: newline_notin_number_toString split_on_ne simp del: upt_Suc)
  have empty: "gutter [] = ''1''"
    by (simp add: gutter_eq lineNumbers_def number_toString.simps digit_char_def char_of_nat_eq)
  have joined: "gutter V = join [newline] (split_on newline (gutter V))"
    by (simp add: join_split_on)
  have len: "length (split_on newline (gutter V)) = ?N"
    unfolding lines by (simp del: upt_Suc)
  have nth: "is_numeral (split_on newline (gutter V) ! k) (Suc k)" if "k < ?N" for k
  proof -
    from that have "map number_toString [1..<Suc ?N] ! k = number_toString (Suc k)"
      by (simp add: nth_upt del: upt_Suc)
    then show ?thesis
      unfolding lines using is_numeral_number_toString [of "Suc k"] by simp
  qed
  show ?thesis
    using lines N empty joined len nth by simp
qed

theorem gutter_lines_witness:
  "gutter [CHR ''a'', newline, CHR ''b'', newline] = [CHR ''1'', newline, CHR ''2'', newline, CHR ''3'']
   \<and> is_numeral (split_on newline (gutter [CHR ''a'', newline, CHR ''b'', newline]) ! 2) 3
   \<and> split_on newline (gutter [CHR ''a'', newline, CHR ''b'', newline]) = [''1'', ''2'', ''3'']
   \<and> drop 8 (split_on newline
        (gutter [newline, newline, newline, newline, newline, newline, newline, newline,
                 newline, newline, newline]))
      = [''9'', ''10'', ''11'', ''12'']"
proof -
  let ?V = "[CHR ''a'', newline, CHR ''b'', newline]"
  have k: "(2::nat) < Suc (count_list ?V newline)" by simp
  from gutter_lines [of ?V] k
  have "is_numeral (split_on newline (gutter ?V) ! 2) (Suc 2)" by blast
  then have 1: "is_numeral (split_on newline (gutter ?V) ! 2) 3" by (simp add: numeral_3_eq_3)
  have 2: "gutter ?V = [CHR ''1'', newline, CHR ''2'', newline, CHR ''3'']"
    by code_simp
  have 3: "split_on newline (gutter ?V) = [''1'', ''2'', ''3'']"
    unfolding 2 by simp
  have 4: "drop 8 (split_on newline
        (gutter [newline, newline, newline, newline, newline, newline, newline, newline,
                 newline, newline, newline]))
      = [''9'', ''10'', ''11'', ''12'']"
    by code_simp
  from 1 2 3 4 show ?thesis by simp
qed

section \<open>Submitting for analysis\<close>

lemma analyze_catch_shape:
  "\<exists>m. analyze_catch e = [ConsoleError ''Analysis error:'', showToast m ''error'']"
  by (auto simp: analyze_catch_def split: option.splits)

text \<open>
  C3. A submission that passes validation (a file is selected, or the text is not blank)
  issues one request whose form holds exactly one part, under the field \<^verbatim>\<open>file\<close>: the
  selected file itself when there is one, whatever the text is, and otherwise the text
  as a \<^verbatim>\<open>text/plain\<close> blob named \<^verbatim>\<open>contract.cpp\<close>.
\<close>

theorem analysis_request_single_part:
  assumes "\<not> (selectedFile st = None \<and> (\<forall>c\<in>set (contractCode st). is_space c))"
  shows "snd (handleAnalyzeContract st)
           = [Fetch (Post analyze_url
                [(''file'',
                  case selectedFile st of
                    Some f \<Rightarrow> FileValue f
                  | None \<Rightarrow> BlobValue (contractCode st) ''text/plain'' ''contract.cpp'')])]"
  using assms
  by (auto simp: handleAnalyzeContract_def trim_Nil_iff append_form_def split: option.splits)

theorem analysis_request_single_part_witness:
  "snd (handleAnalyzeContract
          (initial_state\<lparr>contractCode := ''edited'',
             selectedFile :=
               Some \<lparr>name = ''a.cpp'', fsize = 3, ftype = ''text/x-c'', bytes = ''abc''\<rparr>\<rparr>))
     = [Fetch (Post analyze_url
          [(''file'',
            FileValue \<lparr>name = ''a.cpp'', fsize = 3, ftype = ''text/x-c'', bytes = ''abc''\<rparr>)])]
   \<and> snd (handleAnalyzeContract (initial_state\<lparr>contractCode := ''int x;''\<rparr>))
     = [Fetch (Post analyze_url
          [(''file'', BlobValue ''int x;'' ''text/plain'' ''contract.cpp'')])]"
  using analysis_request_single_part
          [of "initial_state\<lparr>contractCode := ''edited'',
             selectedFile :=
               Some \<lparr>name = ''a.cpp'', fsize = 3, ftype = ''text/x-c'', bytes = ''abc''\<rparr>\<rparr>"]
        analysis_request_single_part [of "initial_state\<lparr>contractCode := ''int x;''\<rparr>"]
  by (simp add: initial_state_def is_space_def)

text \<open>
  C4. With no selected file and a blank text (every character white space, the empty text
  included), Analyze shows the error toast and nothing else: the handler returns the state
  as it was, issues no request, and the component's state and the requests in flight
  are those from before the click.
\<close>

theorem blank_submission_rejected:
  assumes "selectedFile (app s) = None" and "\<forall>c\<in>set (contractCode (app s)). is_space c"
  shows "handleAnalyzeContract (app s)
           = (app s, [showToast ''Please select a file or enter contract code to analyze'' ''error''])
       \<and> app (step s AnalyzeClick) = app s
       \<and> pending_analyses (step s AnalyzeClick) = pending_analyses s
       \<and> pending_imports (step s AnalyzeClick) = pending_imports s
       \<and> filter is_post (snd (handleAnalyzeContract (app s))) = []
       \<and> filter is_get (snd (handleAnalyzeContract (app s))) = []"
  using assms
  by (simp add: handleAnalyzeContract_def trim_Nil_iff step_def perform_def showToast_def)

theorem blank_submission_rejected_witness:
  "app (step (initial_system\<lparr>app := initial_state\<lparr>contractCode := [CHR '' '', newline]\<rparr>\<rparr>)
          AnalyzeClick)
     = initial_state\<lparr>contractCode := [CHR '' '', newline]\<rparr>
   \<and> pending_analyses
        (step (initial_system\<lparr>app := initial_state\<lparr>contractCode := [CHR '' '', newline]\<rparr>\<rparr>)
           AnalyzeClick) = 0"
  using blank_submission_rejected
          [of "initial_system\<lparr>app := initial_state\<lparr>contractCode := [CHR '' '', newline]\<rparr>\<rparr>"]
  by (simp add: initial_state_def initial_system_def is_space_def)

text \<open>
  C10. When the submission fails (network error, response not ok, or JSON parse failure)
  the handler only resets the in-flight flag: the stored result, whether a previous one
  or none, stays as it was, and what it shows is one error toast.
\<close>

theorem failed_submission_keeps_result:
  assumes "failed r"
  shows "fst (handleAnalyzeContract_settled st r) = st\<lparr>isAnalyzing := False\<rparr>
       \<and> analysisResults (fst (handleAnalyzeContract_settled st r)) = analysisResults st
       \<and> (\<exists>m. snd (handleAnalyzeContract_settled st r)
                 = [ConsoleError ''Analysis error:'', showToast m ''error''])"
  using assms analyze_catch_shape
  by (auto simp: failed_def handleAnalyzeContract_settled_def analyze_finally_def
           split: fetch_result.splits sum.splits)

theorem failed_submission_keeps_result_witness:
  "failed (Response False (Inr \<lparr>issues = Some []\<rparr>))
   \<and> fst (handleAnalyzeContract_settled
        (initial_state\<lparr>analysisResults := Some \<lparr>issues = None\<rparr>, isAnalyzing := True\<rparr>)
        (Response False (Inr \<lparr>issues = Some []\<rparr>)))
     = initial_state\<lparr>analysisResults := Some \<lparr>issues = None\<rparr>\<rparr>"
  using failed_submission_keeps_result
          [of "Response False (Inr \<lparr>issues = Some []\<rparr>)"
              "initial_state\<lparr>analysisResults := Some \<lparr>issues = None\<rparr>, isAnalyzing := True\<rparr>"]
  by (simp add: failed_def initial_state_def)

section \<open>The results panel\<close>

text \<open>
  C8, as stated, at \<^verbatim>\<open>src/App.js\<close>: a published result with an empty issue list is shown
  as the dump of its JSON, the same element that shows a result with issues; that
  variant has no "no issues found" panel.
\<close>

theorem empty_issues_json_counterexample:
  "results_panel_json (initial_state\<lparr>analysisResults := Some \<lparr>issues = Some []\<rparr>\<rparr>)
     \<noteq> NoIssuesFound"
  by (simp add: results_panel_json_def)

text \<open>
  C8, amended. For a published result whose \<^verbatim>\<open>issues\<close> array is absent or empty, the
  variant of \<^verbatim>\<open>App\<close> that renders the issues one by one shows the "No Issues Found"
  panel, and \<^verbatim>\<open>src/App.js\<close> shows the dump of the result's JSON; before any result is
  published both show the placeholder, which is neither of the two.
\<close>

theorem empty_issues_panel:
  assumes "issues r = None \<or> issues r = Some []"
  shows "results_panel_issues (st\<lparr>analysisResults := Some r\<rparr>) = NoIssuesFound
       \<and> results_panel_issues (st\<lparr>analysisResults := None\<rparr>) = Placeholder
       \<and> results_panel_json (st\<lparr>analysisResults := Some r\<rparr>) = JsonDump r
       \<and> results_panel_json (st\<lparr>analysisResults := None\<rparr>) = Placeholder
       \<and> NoIssuesFound \<noteq> Placeholder \<and> JsonDump r \<noteq> Placeholder"
  using assms by (auto simp: results_panel_issues_def results_panel_json_def)

theorem empty_issues_panel_witness:
  "results_panel_issues (initial_state\<lparr>analysisResults := Some \<lparr>issues = Some []\<rparr>\<rparr>)
     = NoIssuesFound
   \<and> results_panel_issues initial_state = Placeholder"
  using empty_issues_panel [of "\<lparr>issues = Some []\<rparr>" initial_state]
  by (simp add: initial_state_def results_panel_issues_def)

section \<open>Importing from GitHub\<close>

text \<open>
  C6. A successful fetch (response ok, body read) replaces the text by the fetched text
  and clears the selected file; a failed one shows the error toast and returns the state
  as it was.
\<close>

theorem github_import_outcome:
  "handleImportFromGithub_settled st (Response True (Inr code))
     = (st\<lparr>contractCode := code, selectedFile := None\<rparr>,
        [showToast ''Code imported from GitHub successfully!'' ''success''])
   \<and> (failed r \<longrightarrow>
        handleImportFromGithub_settled st r
          = (st, [ConsoleError ''Import error:'',
                  showToast ''Failed to import from GitHub. Please check the URL.'' ''error'']))"
  by (auto simp: failed_def handleImportFromGithub_settled_def import_catch_def
           split: fetch_result.splits sum.splits)

theorem github_import_outcome_witness:
  "failed (Response False (Inr ''Not Found'') :: string fetch_result)
   \<and> handleImportFromGithub_settled (initial_state\<lparr>contractCode := ''old''\<rparr>)
        (Response False (Inr ''Not Found''))
     = (initial_state\<lparr>contractCode := ''old''\<rparr>,
        [ConsoleError ''Import error:'',
         showToast ''Failed to import from GitHub. Please check the URL.'' ''error''])"
  using github_import_outcome
          [of "initial_state\<lparr>contractCode := ''old''\<rparr>" "''new''"
              "Response False (Inr ''Not Found'')"]
  by (simp add: failed_def)

text \<open>Replacing the host does not move the first \<^verbatim>\<open>/blob/\<close>: neither host name contains a
  slash, and both are longer than the marker.\<close>

lemma blob_after_host_swap:
  "sublist ''/blob/'' (A @ ''raw.githubusercontent.com'' @ Y)
     \<longleftrightarrow> sublist ''/blob/'' (A @ ''github.com'' @ Y)"
proof -
  have "sublist ''/blob/'' (A @ ''raw.githubusercontent.com'' @ Y)
          \<longleftrightarrow> sublist ''/blob/'' A \<or> sublist ''/blob/'' Y"
    by (rule sublist_around_middle [where c = "CHR ''/''"]) simp_all
  moreover have "sublist ''/blob/'' (A @ ''github.com'' @ Y)
          \<longleftrightarrow> sublist ''/blob/'' A \<or> sublist ''/blob/'' Y"
    by (rule sublist_around_middle [where c = "CHR ''/''"]) simp_all
  ultimately show ?thesis by simp
qed

lemma rawUrl_blob_url:
  assumes U: "U = A @ ''github.com'' @ B @ ''/blob/'' @ C"
    and host: "\<not> sublist ''github.com'' (A @ ''github.co'')"
    and blob: "\<not> sublist ''/blob/'' (A @ ''github.com'' @ B @ ''/blob'')"
  shows "rawUrl U = A @ ''raw.githubusercontent.com'' @ B @ ''/'' @ C"
proof -
  have 1: "replace U ''github.com'' ''raw.githubusercontent.com''
             = A @ ''raw.githubusercontent.com'' @ B @ ''/blob/'' @ C"
    unfolding U using host by (intro replace_first) simp_all
  have "\<not> sublist ''/blob/'' (A @ ''raw.githubusercontent.com'' @ B @ ''/blob'')"
    using blob blob_after_host_swap [of A "B @ ''/blob''"] by simp
  then have "\<not> sublist ''/blob/'' ((A @ ''raw.githubusercontent.com'' @ B) @ butlast ''/blob/'')"
    by simp
  then have "replace ((A @ ''raw.githubusercontent.com'' @ B) @ ''/blob/'' @ C) ''/blob/'' ''/''
               = (A @ ''raw.githubusercontent.com'' @ B) @ ''/'' @ C"
    by (intro replace_first) simp_all
  with 1 show ?thesis by (simp add: rawUrl_def)
qed

text \<open>
  C7. A blank URL (every character white space, the empty URL included) is rejected with
  the error toast and no request. For any other URL \<open>U\<close> the handler fetches \<open>rawUrl U\<close>
  and nothing else, where \<open>rawUrl U\<close> is \<open>U\<close> with its first \<^verbatim>\<open>github.com\<close> replaced by
  \<^verbatim>\<open>raw.githubusercontent.com\<close> and then its first \<^verbatim>\<open>/blob/\<close> replaced by \<^verbatim>\<open>/\<close> (each
  only if it occurs). For a URL of the shape \<open>A github.com B /blob/ C\<close>, these being the
  first occurrences of the host and of the marker in \<open>U\<close>, the fetched URL is
  \<open>A raw.githubusercontent.com B / C\<close>.
\<close>

theorem github_import_url:
  "((\<forall>c\<in>set U. is_space c) \<longrightarrow>
      handleImportFromGithub (st\<lparr>githubUrl := U\<rparr>)
        = (st\<lparr>githubUrl := U\<rparr>, [showToast ''Please enter a GitHub URL'' ''error'']))
   \<and> (\<not> (\<forall>c\<in>set U. is_space c) \<longrightarrow>
      handleImportFromGithub (st\<lparr>githubUrl := U\<rparr>)
        = (st\<lparr>githubUrl := U\<rparr>, [Fetch (Get (rawUrl U))])
      \<and> (\<exists>W. first_replaced U ''github.com'' ''raw.githubusercontent.com'' W
             \<and> first_replaced W ''/blob/'' ''/'' (rawUrl U))
      \<and> (\<forall>A B C. U = A @ ''github.com'' @ B @ ''/blob/'' @ C
             \<and> \<not> sublist ''github.com'' (A @ ''github.co'')
             \<and> \<not> sublist ''/blob/'' (A @ ''github.com'' @ B @ ''/blob'')
           \<longrightarrow> rawUrl U = A @ ''raw.githubusercontent.com'' @ B @ ''/'' @ C))"
proof -
  have "first_replaced U ''github.com'' ''raw.githubusercontent.com''
          (replace U ''github.com'' ''raw.githubusercontent.com'')"
    by (rule replace_first_replaced) simp
  moreover have "first_replaced (replace U ''github.com'' ''raw.githubusercontent.com'')
          ''/blob/'' ''/'' (rawUrl U)"
    unfolding rawUrl_def by (rule replace_first_replaced) simp
  ultimately have ex: "\<exists>W. first_replaced U ''github.com'' ''raw.githubusercontent.com'' W
             \<and> first_replaced W ''/blob/'' ''/'' (rawUrl U)"
    by blast
  have eq: "\<forall>A B C. U = A @ ''github.com'' @ B @ ''/blob/'' @ C
             \<and> \<not> sublist ''github.com'' (A @ ''github.co'')
             \<and> \<not> sublist ''/blob/'' (A @ ''github.com'' @ B @ ''/blob'')
           \<longrightarrow> rawUrl U = A @ ''raw.githubusercontent.com'' @ B @ ''/'' @ C"
    using rawUrl_blob_url by blast
  show ?thesis
    using ex eq by (simp add: handleImportFromGithub_def trim_Nil_iff)
qed

theorem github_import_url_witness:
  "handleImportFromGithub (initial_state\<lparr>githubUrl := ''https://github.com/u/r/blob/main/f.cpp''\<rparr>)
     = (initial_state\<lparr>githubUrl := ''https://github.com/u/r/blob/main/f.cpp''\<rparr>,
        [Fetch (Get ''https://raw.githubusercontent.com/u/r/main/f.cpp'')])"
proof -
  let ?U = "''https://github.com/u/r/blob/main/f.cpp''"
  have nb: "\<not> (\<forall>c\<in>set ?U. is_space c)" by (simp add: is_space_def)
  have d: "?U = ''https://'' @ ''github.com'' @ ''/u/r'' @ ''/blob/'' @ ''main/f.cpp''" by simp
  have h: "\<not> sublist ''github.com'' (''https://'' @ ''github.co'')"
    by (simp add: sublist_code)
  have b: "\<not> sublist ''/blob/'' (''https://'' @ ''github.com'' @ ''/u/r'' @ ''/blob'')"
    by (simp add: sublist_code)
  from github_import_url [of ?U initial_state] nb
  have 1: "handleImportFromGithub (initial_state\<lparr>githubUrl := ?U\<rparr>)
        = (initial_state\<lparr>githubUrl := ?U\<rparr>, [Fetch (Get (rawUrl ?U))])"
    and 2: "\<forall>A B C. ?U = A @ ''github.com'' @ B @ ''/blob/'' @ C
             \<and> \<not> sublist ''github.com'' (A @ ''github.co'')
             \<and> \<not> sublist ''/blob/'' (A @ ''github.com'' @ B @ ''/blob'')
           \<longrightarrow> rawUrl ?U = A @ ''raw.githubusercontent.com'' @ B @ ''/'' @ C"
    by blast+
  from 2 d h b have "rawUrl ?U = ''https://'' @ ''raw.githubusercontent.com'' @ ''/u/r'' @ ''/'' @ ''main/f.cpp''"
    by blast
  with 1 show ?thesis by simp
qed

section \<open>Choosing a file\<close>

lemma split_on_singleton: "c \<notin> set s \<longleftrightarrow> (\<exists>seg. split_on c s = [seg])"
  by (induction s) (auto split: list.splits simp: split_on_ne)

text \<open>The last segment of a split is the longest suffix without the separator: the text
  after the last separator, and the whole text when it has none.\<close>

lemma last_split_on:
  "last (split_on c s) = rev (takeWhile (\<lambda>x. x \<noteq> c) (rev s))"
proof (induction s)
  case Nil
  then show ?case by simp
next
  case (Cons x xs)
  show ?case
  proof (cases "x = c")
    case True
    then show ?thesis using Cons by (simp add: split_on_ne takeWhile_append)
  next
    case False
    obtain seg segs where sp: "split_on c xs = seg # segs"
      using split_on_ne [of c xs] by (cases "split_on c xs") auto
    show ?thesis
    proof (cases "c \<in> set xs")
      case True
      then have "segs \<noteq> []" using sp split_on_singleton [of c xs] by auto
      then show ?thesis using Cons False sp True by (auto simp: takeWhile_append)
    next
      case False
      then have "split_on c xs = [xs]" by (rule split_on_notin)
      then show ?thesis using \<open>x \<noteq> c\<close> False by (auto simp: takeWhile_append)
    qed
  qed
qed

text \<open>\<^verbatim>\<open>pop\<close> never meets an empty array here, so the handler never throws.\<close>

lemma fileExtension_eq:
  "fileExtension f
     = Some (''.'' @ toLowerCase (rev (takeWhile (\<lambda>x. x \<noteq> CHR ''.'') (rev (name f)))))"
  by (simp add: fileExtension_def pop_def split_on_ne last_split_on)

text \<open>What the handler decides: the file becomes the selected file when the lower-cased
  last segment of its name is \<^verbatim>\<open>h\<close> or \<^verbatim>\<open>cpp\<close> and its size is at most 5 MiB; otherwise
  the state stays as it was.\<close>

lemma handleFileUpload_decision:
  "fst (handleFileUpload st (Some f))
     = (if toLowerCase (rev (takeWhile (\<lambda>x. x \<noteq> CHR ''.'') (rev (name f)))) \<in> {''h'', ''cpp''}
           \<and> fsize f \<le> 5 * 1024 * 1024
        then st\<lparr>selectedFile := Some f\<rparr> else st)"
  by (auto simp: handleFileUpload_def fileExtension_eq allowedTypes_def max_file_size_def)

lemma handleFileUpload_too_large:
  "fsize f = 5 * 1024 * 1024 + 1 \<Longrightarrow> fst (handleFileUpload st (Some f)) = st"
  by (simp add: handleFileUpload_decision)

lemma handleFileUpload_at_limit:
  "name f = base @ ''.cpp'' \<Longrightarrow> fsize f = 5 * 1024 * 1024 \<Longrightarrow>
   fst (handleFileUpload st (Some f)) = st\<lparr>selectedFile := Some f\<rparr>"
  by (simp add: handleFileUpload_decision toLowerCase_def lower_char_def)

text \<open>
  C5. The claim rejects every file whose extension, the part of the name after its last
  dot, is outside the allow-list, and a name without a dot has no such part. The handler
  takes the last segment of \<^verbatim>\<open>file.name.split('.')\<close>, which for a name without a dot is
  the whole name: the file named \<^verbatim>\<open>cpp\<close> passes the check against \<^verbatim>\<open>['.h', '.cpp']\<close>
  and becomes the selected file. (The rest of the claim holds, by the three lemmas
  above: a rejection leaves the state as it was, a file of 5 MiB + 1 bytes is rejected,
  and one of exactly 5 MiB named \<^verbatim>\<open>*.cpp\<close> is accepted.)
\<close>

theorem upload_name_without_dot:
  "handleFileUpload initial_state
     (Some \<lparr>name = ''cpp'', fsize = 3, ftype = [], bytes = ''abc''\<rparr>)
     = (initial_state
          \<lparr>selectedFile := Some \<lparr>name = ''cpp'', fsize = 3, ftype = [], bytes = ''abc''\<rparr>\<rparr>,
        [ReadAsText \<lparr>name = ''cpp'', fsize = 3, ftype = [], bytes = ''abc''\<rparr>])"
  by (simp add: handleFileUpload_def fileExtension_def pop_def toLowerCase_def lower_char_def
        allowedTypes_def max_file_size_def)

section \<open>One analysis request at a time\<close>

lemma isAnalyzing_upload [simp]: "isAnalyzing (fst (handleFileUpload st f)) = isAnalyzing st"
  by (simp add: handleFileUpload_def split: option.splits)

lemma no_post_upload [simp]: "filter is_post (snd (handleFileUpload st f)) = []"
  by (simp add: handleFileUpload_def showToast_def split: option.splits)

lemma isAnalyzing_import [simp]: "isAnalyzing (fst (handleImportFromGithub st)) = isAnalyzing st"
  by (simp add: handleImportFromGithub_def)

lemma no_post_import [simp]: "filter is_post (snd (handleImportFromGithub st)) = []"
  by (simp add: handleImportFromGithub_def showToast_def)

lemma isAnalyzing_import_settled [simp]:
  "isAnalyzing (fst (handleImportFromGithub_settled st r)) = isAnalyzing st"
  by (simp add: handleImportFromGithub_settled_def split: fetch_result.splits sum.splits)

lemma no_post_import_settled [simp]:
  "filter is_post (snd (handleImportFromGithub_settled st r)) = []"
  by (simp add: handleImportFromGithub_settled_def import_catch_def showToast_def
           split: fetch_result.splits sum.splits)

lemma isAnalyzing_keydown [simp]: "isAnalyzing (editor_keydown st e) = isAnalyzing st"
  by (simp add: editor_keydown_def split: option.splits)

lemma isAnalyzing_settled [simp]:
  "isAnalyzing (fst (handleAnalyzeContract_settled st r)) = False"
  by (simp add: handleAnalyzeContract_settled_def analyze_finally_def
           split: fetch_result.splits sum.splits)

lemma no_post_settled [simp]:
  "filter is_post (snd (handleAnalyzeContract_settled st r)) = []"
  by (simp add: handleAnalyzeContract_settled_def analyze_catch_def showToast_def
           split: fetch_result.splits sum.splits option.splits)

text \<open>A call of the handler either fails validation and issues nothing, or sets the
  flag and issues one request.\<close>

lemma analyze_click_cases:
  "(fst (handleAnalyzeContract st) = st \<and> filter is_post (snd (handleAnalyzeContract st)) = [])
   \<or> (isAnalyzing (fst (handleAnalyzeContract st))
       \<and> length (filter is_post (snd (handleAnalyzeContract st))) = 1)"
  by (simp add: handleAnalyzeContract_def showToast_def Let_def)

lemma inflight_inv_step: "inflight_inv s \<Longrightarrow> inflight_inv (step s ev)"
proof (cases ev)
  case AnalyzeClick
  assume "inflight_inv s"
  then show ?thesis
    using AnalyzeClick analyze_click_cases [of "app s"]
    by (auto simp: inflight_inv_def step_def perform_def analyze_disabled_def)
next
  case (AnalyzeSettled r)
  assume "inflight_inv s"
  then show ?thesis
    using AnalyzeSettled
    by (auto simp: inflight_inv_def step_def perform_def split: if_splits)
qed (auto simp: inflight_inv_def step_def perform_def reader_onload_def reader_onerror_def
       showToast_def)

lemma inflight_inv_run: "inflight_inv s \<Longrightarrow> inflight_inv (run s evs)"
  unfolding run_def by (induction evs arbitrary: s) (auto intro: inflight_inv_step)

lemma inflight_inv_initial: "inflight_inv initial_system"
  by (simp add: inflight_inv_def initial_system_def initial_state_def)

text \<open>
  C9. After any sequence of events from the initial state at most one analysis request
  is outstanding, and the Analyze button is disabled exactly while one is. Two clicks
  in a row, whatever came before, leave at most one request outstanding and issue at
  most one.
\<close>

theorem one_analysis_in_flight:
  "pending_analyses (run initial_system evs) \<le> 1
   \<and> (analyze_disabled (app (run initial_system evs))
        \<longleftrightarrow> pending_analyses (run initial_system evs) = 1)
   \<and> pending_analyses (step (step (run initial_system evs) AnalyzeClick) AnalyzeClick) \<le> 1
   \<and> length (filter is_post
         (log (step (step (run initial_system evs) AnalyzeClick) AnalyzeClick)))
       \<le> Suc (length (filter is_post (log (run initial_system evs))))"
proof -
  let ?s = "run initial_system evs"
  have inv: "inflight_inv ?s"
    by (rule inflight_inv_run [OF inflight_inv_initial])
  then have "inflight_inv (step ?s AnalyzeClick)" by (rule inflight_inv_step)
  then have inv'': "inflight_inv (step (step ?s AnalyzeClick) AnalyzeClick)"
    by (rule inflight_inv_step)
  have twice: "length (filter is_post (log (step (step ?s AnalyzeClick) AnalyzeClick)))
                 \<le> Suc (length (filter is_post (log ?s)))"
    using analyze_click_cases [of "app ?s"]
    by (auto simp: step_def perform_def analyze_disabled_def)
  show ?thesis
    using inv inv'' twice by (simp add: inflight_inv_def analyze_disabled_def split: if_splits)
qed

theorem one_analysis_in_flight_witness:
  "pending_analyses (run initial_system [TextChange ''x'', AnalyzeClick, AnalyzeClick]) = 1"
  using one_analysis_in_flight [of "[TextChange ''x'', AnalyzeClick, AnalyzeClick]"]
  by (simp add: run_def step_def perform_def handleAnalyzeContract_def initial_system_def
        initial_state_def analyze_disabled_def trim_def is_space_def append_form_def)

end
